theory Spec2Isabelle
  imports Main
begin

section \<open>Data model of the study battle bot\<close>

text \<open>
  The bot keeps its state in an SQLite database (\<^verbatim>\<open>database.py\<close>, class
  \<^verbatim>\<open>DatabaseManager\<close>) and in two attributes of \<^verbatim>\<open>BotHandlers\<close>
  (\<^verbatim>\<open>bot_handlers.py\<close>). A table is modelled as the list of its rows in the order in
  which a scan of the table visits them. For the three tables keyed by
  \<^verbatim>\<open>user_id INTEGER PRIMARY KEY\<close> a row is a pair of the key and the other columns, and
  \<^verbatim>\<open>SELECT ... WHERE user_id = ?\<close> followed by \<^verbatim>\<open>fetchone()\<close> is \<open>map_of\<close>.

  Python integers are unbounded and are modelled as \<open>int\<close>; positions produced by
  \<^verbatim>\<open>enumerate(..., 1)\<close> and \<^verbatim>\<open>len\<close> are \<open>nat\<close>. SQLite stores integers in
  64 bits: the model is of ids, counts and deltas within that range, and of columns that
  hold the integers and texts the code writes (never \<^verbatim>\<open>NULL\<close> in a count). The value of
  \<^verbatim>\<open>CURRENT_TIMESTAMP\<close> is an input of every operation that stores it (the argument
  \<open>now\<close>, in seconds); \<^verbatim>\<open>DATE('now')\<close> is its day. Failures of the storage itself
  (an unreadable file, a full disk) are outside the model; the four tables created by
  \<^verbatim>\<open>init_database\<close> exist, since \<^verbatim>\<open>app.py\<close> calls it before any handler runs.
\<close>

type_synonym timestamp = nat

record user_row =
  username :: "string option"
  first_name :: "string option"
  last_name :: "string option"
  registered_at :: timestamp

record daily_row =
  questions_solved :: int
  daily_last_updated :: timestamp

record lifetime_row =
  total_questions :: int
  lifetime_last_updated :: timestamp

record reset_row =
  reset_id :: int
  reset_date :: nat
  reset_time :: timestamp

record right_row =
  right_id :: int
  right_user_id :: int
  outranked_user_id :: int
  old_position :: nat
  new_position :: nat
  used :: bool
  created_at :: timestamp

text \<open>
  The table \<^verbatim>\<open>special_message_rights\<close> is not created by \<^verbatim>\<open>init_database\<close> but by
  the first call of \<^verbatim>\<open>store_special_message_right\<close>; until then it does not exist
  (\<open>None\<close>) and a statement that names it raises \<^verbatim>\<open>sqlite3.OperationalError\<close>, which
  every method catches.
\<close>

record database =
  users :: "(int \<times> user_row) list"
  daily_stats :: "(int \<times> daily_row) list"
  lifetime_stats :: "(int \<times> lifetime_row) list"
  daily_reset_log :: "reset_row list"
  special_message_rights :: "right_row list option"

text \<open>A leaderboard as the queries return it: rows \<^verbatim>\<open>(user_id, display_name, score)\<close>.\<close>

type_synonym leaderboard = "(int \<times> string \<times> int) list"

section \<open>SQL statements used by the code\<close>

text \<open>\<^verbatim>\<open>UPDATE t SET ... WHERE user_id = ?\<close>: every row with that key is rewritten in place.\<close>

definition sql_update_where :: "'k \<Rightarrow> ('r \<Rightarrow> 'r) \<Rightarrow> ('k \<times> 'r) list \<Rightarrow> ('k \<times> 'r) list" where
  "sql_update_where k f tbl = map (\<lambda>(k', r). if k' = k then (k', f r) else (k', r)) tbl"

text \<open>\<^verbatim>\<open>INSERT OR IGNORE\<close>: the row is added unless the key is already there.\<close>

definition sql_insert_or_ignore :: "'k \<Rightarrow> 'r \<Rightarrow> ('k \<times> 'r) list \<Rightarrow> ('k \<times> 'r) list" where
  "sql_insert_or_ignore k r tbl = (if map_of tbl k = None then tbl @ [(k, r)] else tbl)"

text \<open>\<^verbatim>\<open>INSERT OR REPLACE\<close>: rows with the same key are deleted, then the row is added.\<close>

definition sql_insert_or_replace :: "'k \<Rightarrow> 'r \<Rightarrow> ('k \<times> 'r) list \<Rightarrow> ('k \<times> 'r) list" where
  "sql_insert_or_replace k r tbl = filter (\<lambda>(k', _). k' \<noteq> k) tbl @ [(k, r)]"

text \<open>
  \<^verbatim>\<open>INTEGER PRIMARY KEY AUTOINCREMENT\<close>: the new id is one more than the largest id the
  table has held (the code never deletes a row), and 1 in an empty table.
\<close>

definition next_rowid :: "int list \<Rightarrow> int" where
  "next_rowid ids = foldr max ids 0 + 1"

text \<open>\<^verbatim>\<open>LIMIT ?\<close>: SQLite puts no upper bound on the number of rows when the value is negative.\<close>

definition sql_limit :: "int \<Rightarrow> 'a list \<Rightarrow> 'a list" where
  "sql_limit limit rows = (if limit < 0 then rows else take (nat limit) rows)"

text \<open>\<^verbatim>\<open>COALESCE(a, b, c)\<close> with a literal third argument.\<close>

definition coalesce :: "'a option \<Rightarrow> 'a option \<Rightarrow> 'a \<Rightarrow> 'a" where
  "coalesce a b c = (case a of Some x \<Rightarrow> x | None \<Rightarrow> (case b of Some y \<Rightarrow> y | None \<Rightarrow> c))"

section \<open>Rank-change detection\<close>

text \<open>
  \<^verbatim>\<open>
  for i, (uid, name, score) in enumerate(old_leaderboard, 1):
      if uid == user_id:
          old_pos = i
          break
  \<close>
  The loop of \<^verbatim>\<open>get_user_position_change\<close>, run once on each leaderboard; \<open>i\<close> is the
  counter of \<^verbatim>\<open>enumerate\<close>.
\<close>

fun find_position :: "int \<Rightarrow> nat \<Rightarrow> leaderboard \<Rightarrow> nat option" where
  "find_position user_id i [] = None"
| "find_position user_id i ((uid, name, score) # rest) =
     (if uid = user_id then Some i else find_position user_id (i + 1) rest)"

definition get_user_position_change ::
    "int \<Rightarrow> leaderboard \<Rightarrow> leaderboard \<Rightarrow> (nat \<times> nat) option" where
  "get_user_position_change user_id old_leaderboard new_leaderboard =
     (let old_pos = find_position user_id 1 old_leaderboard;
          new_pos = find_position user_id 1 new_leaderboard
      in case (old_pos, new_pos) of
           (Some op, Some np) \<Rightarrow> if np < op then Some (op, np) else None
         | (None, Some np) \<Rightarrow> Some (length old_leaderboard + 1, np)
         | (_, None) \<Rightarrow> None)"

text \<open>
  The search for the outranked user in \<^verbatim>\<open>check_leaderboard_changes\<close>:
  \<^verbatim>\<open>
  outranked_user = None
  for uid, name, score in self.last_leaderboard:
      if uid != user_id:
          for i, (new_uid, new_name, new_score) in enumerate(new_leaderboard, 1):
              if uid == new_uid and i > new_pos:
                  outranked_user = (uid, name)
                  break
  \<close>
  \<open>found_below\<close> is the inner loop (does it reach the assignment?), \<open>find_outranked\<close>
  the outer one with the variable \<^verbatim>\<open>outranked_user\<close> as accumulator. The
  \<^verbatim>\<open>break\<close> leaves the inner loop only: the outer loop goes on and a later match
  overwrites the variable.
\<close>

fun found_below :: "int \<Rightarrow> nat \<Rightarrow> nat \<Rightarrow> leaderboard \<Rightarrow> bool" where
  "found_below uid new_pos i [] = False"
| "found_below uid new_pos i ((new_uid, new_name, new_score) # rest) =
     (if uid = new_uid \<and> i > new_pos then True else found_below uid new_pos (i + 1) rest)"

fun find_outranked ::
    "int \<Rightarrow> leaderboard \<Rightarrow> nat \<Rightarrow> (int \<times> string) option \<Rightarrow> leaderboard \<Rightarrow> (int \<times> string) option" where
  "find_outranked user_id new_leaderboard new_pos outranked_user [] = outranked_user"
| "find_outranked user_id new_leaderboard new_pos outranked_user ((uid, name, score) # rest) =
     find_outranked user_id new_leaderboard new_pos
       (if uid \<noteq> user_id \<and> found_below uid new_pos 1 new_leaderboard
        then Some (uid, name) else outranked_user)
       rest"

text \<open>
  The overtake event of one call, from the two leaderboards: the outranked user's id and
  name and the two positions, exactly when the code reaches the statement that sends the
  notification, apart from the test of \<^verbatim>\<open>self.chat_id\<close>. An empty previous leaderboard
  is falsy, and then nothing is compared.
\<close>

record overtake_event =
  outranked_id :: int
  outranked_name :: string
  old_pos :: nat
  new_pos :: nat

definition detect_overtake :: "int \<Rightarrow> leaderboard \<Rightarrow> leaderboard \<Rightarrow> overtake_event option" where
  "detect_overtake user_id last_leaderboard new_leaderboard =
     (if last_leaderboard = [] then None
      else case get_user_position_change user_id last_leaderboard new_leaderboard of
             None \<Rightarrow> None
           | Some (op, np) \<Rightarrow>
               (case find_outranked user_id new_leaderboard np None last_leaderboard of
                  None \<Rightarrow> None
                | Some (oid, oname) \<Rightarrow>
                    Some \<lparr>outranked_id = oid, outranked_name = oname, old_pos = op, new_pos = np\<rparr>))"

section \<open>Operations of the database manager\<close>

text \<open>
  Every method returns its result together with the database it leaves behind. A method
  that ends in \<^verbatim>\<open>return False\<close> before \<^verbatim>\<open>conn.commit()\<close> leaves the database
  as it was.
\<close>

definition register_user ::
    "timestamp \<Rightarrow> database \<Rightarrow> int \<Rightarrow> string option \<Rightarrow> string option \<Rightarrow> string option
     \<Rightarrow> bool \<times> database" where
  "register_user now db uid uname fname lname =
     (if map_of (users db) uid \<noteq> None
      then (True, db\<lparr>users :=
              sql_update_where uid
                (\<lambda>u. u\<lparr>username := uname, first_name := fname, last_name := lname\<rparr>)
                (users db)\<rparr>)
      else (True, db\<lparr>
              users := users db @
                [(uid, \<lparr>username = uname, first_name = fname, last_name = lname,
                        registered_at = now\<rparr>)],
              daily_stats := sql_insert_or_ignore uid
                \<lparr>questions_solved = 0, daily_last_updated = now\<rparr> (daily_stats db),
              lifetime_stats := sql_insert_or_ignore uid
                \<lparr>total_questions = 0, lifetime_last_updated = now\<rparr> (lifetime_stats db)\<rparr>))"

text \<open>
  \<^verbatim>\<open>update_solved_questions\<close>: the daily row is replaced by the old count (0 without a
  row) plus the delta, the lifetime row by \<^verbatim>\<open>max(0, current_lifetime + questions_count)\<close>,
  and a daily count that has become negative is then set to 0.
\<close>

definition update_solved_questions :: "timestamp \<Rightarrow> database \<Rightarrow> int \<Rightarrow> int \<Rightarrow> bool \<times> database" where
  "update_solved_questions now db uid questions_count =
     (if map_of (users db) uid = None then (False, db)
      else
        let daily1 = sql_insert_or_replace uid
              \<lparr>questions_solved =
                 (case map_of (daily_stats db) uid of None \<Rightarrow> 0 | Some d \<Rightarrow> questions_solved d)
                   + questions_count,
               daily_last_updated = now\<rparr>
              (daily_stats db);
            current_lifetime =
              (case map_of (lifetime_stats db) uid of None \<Rightarrow> 0 | Some l \<Rightarrow> total_questions l);
            new_lifetime = max 0 (current_lifetime + questions_count);
            lifetime1 = sql_insert_or_replace uid
              \<lparr>total_questions = new_lifetime, lifetime_last_updated = now\<rparr>
              (lifetime_stats db);
            daily2 =
              (case map_of daily1 uid of
                 Some current_daily \<Rightarrow>
                   if questions_solved current_daily < 0
                   then sql_update_where uid (\<lambda>d. d\<lparr>questions_solved := 0\<rparr>) daily1
                   else daily1
               | None \<Rightarrow> daily1)
        in (True, db\<lparr>daily_stats := daily2, lifetime_stats := lifetime1\<rparr>))"

text \<open>
  \<^verbatim>\<open>get_user_stats\<close>: the two counters of a registered user, 0 for a missing row
  (\<^verbatim>\<open>LEFT JOIN\<close> with \<^verbatim>\<open>COALESCE(..., 0)\<close>), and \<^verbatim>\<open>(0, 0)\<close> for an unknown user.
\<close>

definition get_user_stats :: "database \<Rightarrow> int \<Rightarrow> int \<times> int" where
  "get_user_stats db uid =
     (case map_of (users db) uid of
        None \<Rightarrow> (0, 0)
      | Some u \<Rightarrow>
          ((case map_of (daily_stats db) uid of None \<Rightarrow> 0 | Some d \<Rightarrow> questions_solved d),
           (case map_of (lifetime_stats db) uid of None \<Rightarrow> 0 | Some l \<Rightarrow> total_questions l)))"

text \<open>
  The query shared, word for word, by \<^verbatim>\<open>get_daily_leaderboard_with_ids\<close> and
  \<^verbatim>\<open>get_daily_leaderboard\<close>: the join of \<^verbatim>\<open>daily_stats\<close> with \<^verbatim>\<open>users\<close>, the
  \<^verbatim>\<open>WHERE\<close> clause, \<^verbatim>\<open>ORDER BY d.questions_solved DESC\<close> and \<^verbatim>\<open>LIMIT\<close>. SQL
  leaves the order of rows with equal counts open; here they keep the order of the scan,
  and that order is any order, since the table is any list of rows. The comparison
  \<^verbatim>\<open>!= 'Demo User'\<close> of two texts is SQLite's binary one: equal means the same
  characters.
\<close>

definition daily_leaderboard_query :: "database \<Rightarrow> int \<Rightarrow> (int \<times> user_row \<times> daily_row) list" where
  "daily_leaderboard_query db limit =
     sql_limit limit
       (sort_key (\<lambda>(uid, u, d). - questions_solved d)
          (filter (\<lambda>(uid, u, d). questions_solved d > 0
                     \<and> coalesce (username u) (first_name u) [] \<noteq> ''Demo User'')
             (concat (map (\<lambda>(uid, d). case map_of (users db) uid of
                                         None \<Rightarrow> [] | Some u \<Rightarrow> [(uid, u, d)])
                        (daily_stats db)))))"

definition get_daily_leaderboard_with_ids :: "database \<Rightarrow> int \<Rightarrow> leaderboard" where
  "get_daily_leaderboard_with_ids db limit =
     map (\<lambda>(uid, u, d).
            (uid, coalesce (username u) (first_name u) ''Unknown User'', questions_solved d))
       (daily_leaderboard_query db limit)"

definition get_daily_leaderboard :: "database \<Rightarrow> int \<Rightarrow> (string \<times> int) list" where
  "get_daily_leaderboard db limit =
     map (\<lambda>(uid, u, d).
            (coalesce (username u) (first_name u) ''Unknown User'', questions_solved d))
       (daily_leaderboard_query db limit)"

definition reset_daily_stats :: "timestamp \<Rightarrow> database \<Rightarrow> bool \<times> database" where
  "reset_daily_stats now db =
     (True, db\<lparr>
        daily_stats :=
          map (\<lambda>(k, d). (k, d\<lparr>questions_solved := 0, daily_last_updated := now\<rparr>))
            (daily_stats db),
        daily_reset_log := daily_reset_log db @
          [\<lparr>reset_id = next_rowid (map reset_id (daily_reset_log db)),
            reset_date = now div 86400, reset_time = now\<rparr>]\<rparr>)"

subsection \<open>Special message rights\<close>

definition rights_rows :: "database \<Rightarrow> right_row list" where
  "rights_rows db = (case special_message_rights db of None \<Rightarrow> [] | Some rs \<Rightarrow> rs)"

definition store_special_message_right ::
    "timestamp \<Rightarrow> database \<Rightarrow> int \<Rightarrow> int \<Rightarrow> nat \<Rightarrow> nat \<Rightarrow> bool \<times> database" where
  "store_special_message_right now db uid outranked opos npos =
     (True, db\<lparr>special_message_rights := Some (rights_rows db @
        [\<lparr>right_id = next_rowid (map right_id (rights_rows db)),
          right_user_id = uid, outranked_user_id = outranked,
          old_position = opos, new_position = npos,
          used = False, created_at = now\<rparr>])\<rparr>)"

text \<open>
  \<^verbatim>\<open>
  SELECT id FROM special_message_rights
  WHERE user_id = ? AND used = FALSE
  ORDER BY created_at DESC LIMIT 1
  \<close>
  The query orders by \<^verbatim>\<open>created_at\<close> alone, and SQL leaves the order of rows with equal
  \<^verbatim>\<open>created_at\<close> open, so \<^verbatim>\<open>LIMIT 1\<close> may deliver any of the latest rows.
  \<open>get_unused_message_right db uid\<close> lists every value the method may return: the id
  of each selected row that no selected row is later than, and \<^verbatim>\<open>None\<close> alone when no row
  is selected or the table does not exist yet.
\<close>

definition unused_rights :: "database \<Rightarrow> int \<Rightarrow> right_row list" where
  "unused_rights db uid = filter (\<lambda>r. right_user_id r = uid \<and> \<not> used r) (rights_rows db)"

definition get_unused_message_right :: "database \<Rightarrow> int \<Rightarrow> int option list" where
  "get_unused_message_right db uid =
     (let selected = unused_rights db uid
      in if selected = [] then [None]
         else map (\<lambda>r. Some (right_id r))
                (filter (\<lambda>r. \<forall>r' \<in> set selected. created_at r' \<le> created_at r) selected))"

definition use_message_right :: "database \<Rightarrow> int \<Rightarrow> bool \<times> database" where
  "use_message_right db rid =
     (case special_message_rights db of
        None \<Rightarrow> (False, db)
      | Some rs \<Rightarrow>
          (True, db\<lparr>special_message_rights :=
             Some (map (\<lambda>r. if right_id r = rid then r\<lparr>used := True\<rparr> else r) rs)\<rparr>))"

section \<open>The handler that checks for leaderboard changes\<close>

text \<open>
  \<^verbatim>\<open>BotHandlers\<close> holds the database, the last leaderboard and the chat id
  (\<^verbatim>\<open>None\<close> until a command has stored one). \<open>check_leaderboard_changes\<close> returns the
  event it announces, if any, and the state it leaves. The announcement and the stored
  right both need a truthy \<^verbatim>\<open>self.chat_id\<close>.
\<close>

record bot_handlers =
  handlers_db :: database
  last_leaderboard :: leaderboard
  chat_id :: "int option"

definition check_leaderboard_changes ::
    "timestamp \<Rightarrow> bot_handlers \<Rightarrow> int \<Rightarrow> overtake_event option \<times> bot_handlers" where
  "check_leaderboard_changes now self uid =
     (let new_leaderboard = get_daily_leaderboard_with_ids (handlers_db self) 10;
          event = (case detect_overtake uid (last_leaderboard self) new_leaderboard of
                     None \<Rightarrow> None
                   | Some e \<Rightarrow>
                       if chat_id self \<noteq> None \<and> chat_id self \<noteq> Some 0 then Some e else None)
      in (event,
          self\<lparr>handlers_db := (case event of
                        None \<Rightarrow> handlers_db self
                      | Some e \<Rightarrow> snd (store_special_message_right now (handlers_db self) uid
                                         (outranked_id e) (old_pos e) (new_pos e))),
               last_leaderboard := new_leaderboard\<rparr>))"

section \<open>Notions the properties are stated with\<close>

text \<open>
  The specification's rank: the 1-based index of the first row of a snapshot that
  carries the user (meaningful when the user is in the snapshot).
\<close>

definition in_snapshot :: "int \<Rightarrow> leaderboard \<Rightarrow> bool" where
  "in_snapshot user_id lb = (user_id \<in> fst ` set lb)"

definition rank_of :: "int \<Rightarrow> leaderboard \<Rightarrow> nat" where
  "rank_of user_id lb = length (takeWhile (\<lambda>row. fst row \<noteq> user_id) lb) + 1"

text \<open>
  The displaced competitor as the specification words it: the first row of the previous
  snapshot, in its order, of a user other than the acting one who has a position in the
  current snapshot strictly greater than the acting user's new rank.
\<close>

definition spec_displaced :: "int \<Rightarrow> leaderboard \<Rightarrow> leaderboard \<Rightarrow> nat \<Rightarrow> (int \<times> string) option" where
  "spec_displaced user_id previous current new_rank =
     map_option (\<lambda>(uid, name, score). (uid, name))
       (List.find (\<lambda>(uid, name, score). uid \<noteq> user_id \<and>
                     in_snapshot uid current \<and> rank_of uid current > new_rank)
          previous)"

text \<open>Comparison of names without regard to the case of the letters A to Z.\<close>

definition ascii_lower :: "char \<Rightarrow> char" where
  "ascii_lower c =
     (case map_of (zip ''ABCDEFGHIJKLMNOPQRSTUVWXYZ'' ''abcdefghijklmnopqrstuvwxyz'') c of
        Some l \<Rightarrow> l | None \<Rightarrow> c)"

definition equal_ignoring_case :: "string \<Rightarrow> string \<Rightarrow> bool" where
  "equal_ignoring_case a b = (map ascii_lower a = map ascii_lower b)"

definition descending :: "int list \<Rightarrow> bool" where
  "descending scores = sorted_wrt (\<lambda>a b. a \<ge> b) scores"

text \<open>A sequence of deltas applied to one user, each call with its own clock value.\<close>

fun apply_deltas :: "database \<Rightarrow> int \<Rightarrow> (timestamp \<times> int) list \<Rightarrow> database" where
  "apply_deltas db uid [] = db"
| "apply_deltas db uid ((now, delta) # rest) =
     apply_deltas (snd (update_solved_questions now db uid delta)) uid rest"

definition counters_nonneg :: "database \<Rightarrow> bool" where
  "counters_nonneg db =
     ((\<forall>(k, d) \<in> set (daily_stats db). 0 \<le> questions_solved d) \<and>
      (\<forall>(k, l) \<in> set (lifetime_stats db). 0 \<le> total_questions l))"

text \<open>
  A right id is consumed in a database when the table holds a row with that id and every
  row with that id is marked used.
\<close>

definition consumed :: "int \<Rightarrow> database \<Rightarrow> bool" where
  "consumed rid db =
     (\<exists>r \<in> set (rights_rows db). right_id r = rid \<and>
        (\<forall>r' \<in> set (rights_rows db). right_id r' = rid \<longrightarrow> used r'))"

text \<open>Any later history of a database: a sequence of calls of the methods that write.\<close>

datatype db_call =
    RegisterUser int "string option" "string option" "string option"
  | UpdateSolved int int
  | ResetDaily
  | StoreRight int int nat nat
  | UseRight int

fun perform :: "timestamp \<Rightarrow> db_call \<Rightarrow> database \<Rightarrow> database" where
  "perform now (RegisterUser uid uname fname lname) db = snd (register_user now db uid uname fname lname)"
| "perform now (UpdateSolved uid n) db = snd (update_solved_questions now db uid n)"
| "perform now ResetDaily db = snd (reset_daily_stats now db)"
| "perform now (StoreRight uid outranked opos npos) db =
     snd (store_special_message_right now db uid outranked opos npos)"
| "perform now (UseRight rid) db = snd (use_message_right db rid)"

fun perform_all :: "(timestamp \<times> db_call) list \<Rightarrow> database \<Rightarrow> database" where
  "perform_all [] db = db"
| "perform_all ((now, c) # rest) db = perform_all rest (perform now c db)"

subsection \<open>Concrete states and snapshots\<close>

definition empty_db :: database where
  "empty_db = \<lparr>users = [], daily_stats = [], lifetime_stats = [], daily_reset_log = [],
               special_message_rights = None\<rparr>"

text \<open>The snapshots of the specification's example, with ids 1, 2, 3 for A, B, C.\<close>

definition example_previous :: leaderboard where
  "example_previous = [(1, ''A'', 10), (2, ''B'', 8), (3, ''C'', 5)]"

definition example_current :: leaderboard where
  "example_current = [(2, ''B'', 9), (1, ''A'', 10), (3, ''C'', 5)]"

text \<open>The same three users when B has scored enough to pass A: a sorted current snapshot.\<close>

definition sorted_current :: leaderboard where
  "sorted_current = [(2, ''B'', 12), (1, ''A'', 10), (3, ''C'', 5)]"


text \<open>
  A run of the bot: A, B and C register and log 10, 8 and 5 questions; the handlers hold
  the leaderboard of that moment and a chat id; then B logs 4 more questions, which
  \<^verbatim>\<open>solved_command\<close> stores before it calls \<^verbatim>\<open>check_leaderboard_changes\<close>.
\<close>

definition battle_db :: database where
  "battle_db =
     perform_all
       [(1, RegisterUser 1 (Some ''A'') None None),
        (2, RegisterUser 2 (Some ''B'') None None),
        (3, RegisterUser 3 (Some ''C'') None None),
        (4, UpdateSolved 1 10), (5, UpdateSolved 2 8), (6, UpdateSolved 3 5)]
       empty_db"

definition battle_handlers :: bot_handlers where
  "battle_handlers =
     \<lparr>handlers_db = snd (update_solved_questions 7 battle_db 2 4),
      last_leaderboard = get_daily_leaderboard_with_ids battle_db 10,
      chat_id = Some 42\<rparr>"

text \<open>One user whose handle is the sentinel in lower case, with 5 questions today.\<close>

definition lowercase_demo_db :: database where
  "lowercase_demo_db =
     apply_deltas (snd (register_user 0 empty_db 1 (Some ''demo user'') None None)) 1 [(1, 5)]"

text \<open>Two rights granted to user 7 within the same second.\<close>

definition tied_rights_db :: database where
  "tied_rights_db =
     snd (store_special_message_right 100
            (snd (store_special_message_right 100 empty_db 7 8 2 1)) 7 9 3 2)"

text \<open>Two rights granted to user 7 five seconds apart.\<close>

definition later_rights_db :: database where
  "later_rights_db =
     snd (store_special_message_right 105
            (snd (store_special_message_right 100 empty_db 7 8 2 1)) 7 9 3 2)"

section \<open>Facts about the SQL statements\<close>

lemmas db_defs = register_user_def update_solved_questions_def reset_daily_stats_def
  store_special_message_right_def use_message_right_def rights_rows_def
  sql_insert_or_ignore_def sql_insert_or_replace_def sql_update_where_def next_rowid_def
  sql_limit_def coalesce_def empty_db_def Let_def

lemma map_of_update_where:
  "map_of (sql_update_where k f tbl) k' =
     (if k' = k then map_option f (map_of tbl k) else map_of tbl k')"
  by (induction tbl) (auto simp: sql_update_where_def)

lemma map_of_insert_or_replace:
  "map_of (sql_insert_or_replace k r tbl) k' = (if k' = k then Some r else map_of tbl k')"
proof -
  have "map_of (filter (\<lambda>(k', _). k' \<noteq> k) tbl) k' = (if k' = k then None else map_of tbl k')"
    by (induction tbl) auto
  then show ?thesis
    by (auto simp: sql_insert_or_replace_def map_add_def split: option.splits)
qed

lemma in_set_insert_or_replace:
  "(k', r') \<in> set (sql_insert_or_replace k r tbl) \<longleftrightarrow>
     (k' = k \<and> r' = r) \<or> (k' \<noteq> k \<and> (k', r') \<in> set tbl)"
  by (auto simp: sql_insert_or_replace_def)

lemma in_set_update_where:
  "(k', r') \<in> set (sql_update_where k f tbl) \<longleftrightarrow>
     (k' = k \<and> (\<exists>r. (k, r) \<in> set tbl \<and> r' = f r)) \<or> (k' \<noteq> k \<and> (k', r') \<in> set tbl)"
  by (induction tbl) (auto simp: sql_update_where_def split: if_splits)

section \<open>Rank-change detection: the properties\<close>

lemma find_position_rank:
  "find_position u i lb =
     (if in_snapshot u lb then Some (i + length (takeWhile (\<lambda>row. fst row \<noteq> u) lb)) else None)"
  by (induction lb arbitrary: i) (force simp: in_snapshot_def)+

text \<open>
  What the nested loops compute: the \<^emph>\<open>last\<close> row of the previous leaderboard that
  qualifies, since the scan of the previous leaderboard never stops early.
\<close>

lemma find_append_cases:
  "List.find P (xs @ ys) = (case List.find P xs of None \<Rightarrow> List.find P ys | Some x \<Rightarrow> Some x)"
  by (induction xs) auto

lemma find_outranked_last:
  "find_outranked u new np acc prev =
     (case List.find (\<lambda>(uid, name, score). uid \<noteq> u \<and> found_below uid np 1 new) (rev prev) of
        None \<Rightarrow> acc | Some (uid, name, score) \<Rightarrow> Some (uid, name))"
  by (induction prev arbitrary: acc) (auto simp: find_append_cases split: option.splits)

lemma battle_previous:
  "get_daily_leaderboard_with_ids battle_db 10 = example_previous"
  by (simp add: battle_db_def example_previous_def get_daily_leaderboard_with_ids_def
        daily_leaderboard_query_def db_defs)

lemma battle_current:
  "get_daily_leaderboard_with_ids (snd (update_solved_questions 7 battle_db 2 4)) 10
     = sorted_current"
  by (simp add: battle_db_def sorted_current_def get_daily_leaderboard_with_ids_def
        daily_leaderboard_query_def db_defs)

text \<open>
  Claim C1. When the rank-change detection emits an overtake event, the displaced
  competitor it reports should be the first user of the previous snapshot, in its order
  and other than the acting user, whose position in the current snapshot is strictly
  greater than the acting user's new rank; for previous = [A:10, B:8, C:5] and
  current = [B:9, A:10, C:5] with acting user B it should be A.

  The code reports C: in the run \<open>battle_handlers\<close>, where B passes A by logging 4
  questions, and on the two snapshots of the specification's example alike, the event
  names user 3 (C), who was below B before and after, while the first qualifying user
  is user 1 (A).
\<close>

theorem check_leaderboard_changes_names_last_match:
  "fst (check_leaderboard_changes 7 battle_handlers 2)
     = Some \<lparr>outranked_id = 3, outranked_name = ''C'', old_pos = 2, new_pos = 1\<rparr>
   \<and> spec_displaced 2 (last_leaderboard battle_handlers)
        (get_daily_leaderboard_with_ids (handlers_db battle_handlers) 10) 1 = Some (1, ''A'')
   \<and> detect_overtake 2 example_previous example_current
        = Some \<lparr>outranked_id = 3, outranked_name = ''C'', old_pos = 2, new_pos = 1\<rparr>
   \<and> spec_displaced 2 example_previous example_current 1 = Some (1, ''A'')"
  by (simp add: check_leaderboard_changes_def battle_handlers_def battle_previous battle_current
        detect_overtake_def get_user_position_change_def spec_displaced_def in_snapshot_def
        rank_of_def example_previous_def example_current_def sorted_current_def Let_def)

text \<open>
  Claim C2. \<open>get_user_position_change\<close> returns a change record exactly in two cases:
  the acting user is in both snapshots and the rank in the current one is strictly
  smaller, and then the record is (old rank, new rank); or the user is absent from the
  previous snapshot and present in the current one, and then it is
  (length of the previous snapshot + 1, new rank). In every other case (rank unchanged,
  rank worsened, user absent from the current snapshot) it returns nothing.
\<close>

theorem get_user_position_change_cases:
  "get_user_position_change u old new =
     (if in_snapshot u old \<and> in_snapshot u new \<and> rank_of u new < rank_of u old
      then Some (rank_of u old, rank_of u new)
      else if \<not> in_snapshot u old \<and> in_snapshot u new
      then Some (length old + 1, rank_of u new)
      else None)"
  by (simp add: get_user_position_change_def find_position_rank rank_of_def)

section \<open>Score store: the properties\<close>

text \<open>
  Claim C5. \<open>update_solved_questions\<close> for a user id that is not in the users table
  returns False (no exception reaches the caller) and leaves every daily and lifetime
  counter, indeed the whole database, unchanged.
\<close>

theorem update_solved_questions_unknown_user:
  "map_of (users db) uid = None \<Longrightarrow> update_solved_questions now db uid n = (False, db)"
  by (simp add: update_solved_questions_def)

theorem update_solved_questions_unknown_user_witness:
  "map_of (users battle_db) 4 = None \<and> update_solved_questions 8 battle_db 4 5 = (False, battle_db)"
proof -
  have h: "map_of (users battle_db) 4 = None"
    by (simp add: battle_db_def db_defs)
  show ?thesis
    using h update_solved_questions_unknown_user [OF h, of 8 5] by simp
qed

text \<open>
  Claim C6. Non-negativity is an invariant: if every daily counter and every lifetime
  counter is at least 0, then after \<open>update_solved_questions\<close> with any integer delta,
  after \<open>reset_daily_stats\<close> and after \<open>register_user\<close> every counter is still at
  least 0.
\<close>

theorem counters_nonneg_preserved:
  assumes "counters_nonneg db"
  shows "counters_nonneg (snd (update_solved_questions now db uid n))
       \<and> counters_nonneg (snd (reset_daily_stats now db))
       \<and> counters_nonneg (snd (register_user now db uid' uname fname lname))"
proof (intro conjI)
  show "counters_nonneg (snd (reset_daily_stats now db))"
    using assms by (auto simp: counters_nonneg_def reset_daily_stats_def)
  show "counters_nonneg (snd (register_user now db uid' uname fname lname))"
    using assms by (auto simp: counters_nonneg_def register_user_def sql_insert_or_ignore_def)
  show "counters_nonneg (snd (update_solved_questions now db uid n))"
    using assms
    by (auto simp: counters_nonneg_def update_solved_questions_def Let_def
          map_of_insert_or_replace in_set_insert_or_replace in_set_update_where)
qed

theorem counters_nonneg_preserved_witness:
  "counters_nonneg battle_db
   \<and> counters_nonneg (snd (update_solved_questions 7 battle_db 2 (- 20)))
   \<and> counters_nonneg (snd (reset_daily_stats 7 battle_db))
   \<and> counters_nonneg (snd (register_user 7 battle_db 4 None (Some ''D'') None))
   \<and> get_user_stats (snd (update_solved_questions 7 battle_db 2 (- 20))) 2 = (0, 0)"
proof -
  have h: "counters_nonneg battle_db"
    by (simp add: counters_nonneg_def battle_db_def db_defs)
  have "get_user_stats (snd (update_solved_questions 7 battle_db 2 (- 20))) 2 = (0, 0)"
    by (simp add: get_user_stats_def battle_db_def db_defs)
  then show ?thesis
    using h counters_nonneg_preserved [OF h] by simp
qed

lemma update_solved_questions_lifetime:
  assumes "map_of (users db) uid \<noteq> None"
  shows "snd (get_user_stats (snd (update_solved_questions now db uid n)) uid)
           = max 0 (snd (get_user_stats db uid) + n)
       \<and> users (snd (update_solved_questions now db uid n)) = users db"
  using assms
  by (auto simp: update_solved_questions_def get_user_stats_def Let_def map_of_insert_or_replace
        split: option.splits)

lemma apply_deltas_users:
  "map_of (users db) uid \<noteq> None \<Longrightarrow> users (apply_deltas db uid ds) = users db"
  by (induction ds arbitrary: db) (auto simp: update_solved_questions_lifetime)






lemma map_of_reset_rows:
  "map_of (map (\<lambda>(k, d). (k, d\<lparr>questions_solved := 0, daily_last_updated := now\<rparr>)) tbl) uid
     = map_option (\<lambda>d. d\<lparr>questions_solved := 0, daily_last_updated := now\<rparr>) (map_of tbl uid)"
  by (induction tbl) auto

lemma reset_daily_stats_effect:
  "fst (reset_daily_stats now db) = True
   \<and> (\<forall>(k, d) \<in> set (daily_stats (snd (reset_daily_stats now db))). questions_solved d = 0)
   \<and> map fst (daily_stats (snd (reset_daily_stats now db))) = map fst (daily_stats db)
   \<and> (\<forall>uid. fst (get_user_stats (snd (reset_daily_stats now db)) uid) = 0)
   \<and> users (snd (reset_daily_stats now db)) = users db
   \<and> lifetime_stats (snd (reset_daily_stats now db)) = lifetime_stats db
   \<and> length (daily_reset_log (snd (reset_daily_stats now db))) = length (daily_reset_log db) + 1
   \<and> take (length (daily_reset_log db)) (daily_reset_log (snd (reset_daily_stats now db)))
        = daily_reset_log db"
  by (auto simp: reset_daily_stats_def get_user_stats_def map_of_reset_rows split: option.splits)

text \<open>
  Claim C7. Each call of \<open>reset_daily_stats\<close> sets every daily counter to 0, appends
  exactly one entry to the reset log and leaves every lifetime counter unchanged; called
  twice in a row it leaves all daily counters at 0 both times and the log has gained
  exactly two entries.
\<close>

theorem reset_daily_stats_once_and_twice:
  fixes db :: database and now now' :: timestamp
  defines "db1 \<equiv> snd (reset_daily_stats now db)"
  defines "db2 \<equiv> snd (reset_daily_stats now' (snd (reset_daily_stats now db)))"
  shows "fst (reset_daily_stats now db) = True \<and> fst (reset_daily_stats now' db1) = True
   \<and> (\<forall>(k, d) \<in> set (daily_stats db1). questions_solved d = 0)
   \<and> (\<forall>(k, d) \<in> set (daily_stats db2). questions_solved d = 0)
   \<and> map fst (daily_stats db1) = map fst (daily_stats db)
   \<and> map fst (daily_stats db2) = map fst (daily_stats db)
   \<and> (\<forall>uid. fst (get_user_stats db1 uid) = 0 \<and> fst (get_user_stats db2 uid) = 0)
   \<and> lifetime_stats db1 = lifetime_stats db \<and> lifetime_stats db2 = lifetime_stats db
   \<and> (\<forall>uid. snd (get_user_stats db1 uid) = snd (get_user_stats db uid)
            \<and> snd (get_user_stats db2 uid) = snd (get_user_stats db uid))
   \<and> length (daily_reset_log db1) = length (daily_reset_log db) + 1
   \<and> take (length (daily_reset_log db)) (daily_reset_log db1) = daily_reset_log db
   \<and> length (daily_reset_log db2) = length (daily_reset_log db) + 2
   \<and> take (length (daily_reset_log db)) (daily_reset_log db2) = daily_reset_log db"
proof -
  note a = reset_daily_stats_effect [of now db, folded db1_def]
  note b = reset_daily_stats_effect [of now' db1, unfolded db1_def, folded db2_def]
  have l: "snd (get_user_stats db1 uid) = snd (get_user_stats db uid)
         \<and> snd (get_user_stats db2 uid) = snd (get_user_stats db uid)" for uid
    using a b by (simp add: get_user_stats_def db1_def split: option.splits)
  have t: "take (length (daily_reset_log db)) (daily_reset_log db2) = daily_reset_log db"
  proof -
    have "take (length (daily_reset_log db)) (daily_reset_log db2)
        = take (length (daily_reset_log db))
            (take (length (daily_reset_log db1)) (daily_reset_log db2))"
      using a by simp
    also have "\<dots> = take (length (daily_reset_log db)) (daily_reset_log db1)"
      using b by (simp add: db1_def)
    finally show ?thesis using a by simp
  qed
  show ?thesis
    using a b l t by (simp add: db1_def)
qed

theorem reset_daily_stats_once_and_twice_witness:
  "get_user_stats battle_db 1 = (10, 10)
   \<and> get_user_stats (snd (reset_daily_stats 7 battle_db)) 1 = (0, 10)
   \<and> get_user_stats (snd (reset_daily_stats 8 (snd (reset_daily_stats 7 battle_db)))) 1 = (0, 10)
   \<and> length (daily_reset_log (snd (reset_daily_stats 8 (snd (reset_daily_stats 7 battle_db))))) = 2
   \<and> map (\<lambda>(k, d). (k, questions_solved d)) (daily_stats (snd (reset_daily_stats 7 battle_db)))
       = [(1, 0), (2, 0), (3, 0)]"
proof -
  have s: "get_user_stats battle_db 1 = (10, 10)"
    by (simp add: get_user_stats_def battle_db_def db_defs)
  have z: "map (\<lambda>(k, d). (k, questions_solved d)) (daily_stats (snd (reset_daily_stats 7 battle_db)))
       = [(1, 0), (2, 0), (3, 0)]"
    by (simp add: battle_db_def db_defs)
  have u: "map_of (users battle_db) 1 \<noteq> None" and e: "daily_reset_log battle_db = []"
    by (simp_all add: battle_db_def db_defs)
  have p: "get_user_stats d 1 = (fst (get_user_stats d 1), snd (get_user_stats d 1))" for d
    by simp
  show ?thesis
    using s e z reset_daily_stats_once_and_twice [of 7 battle_db 8]
    by (subst (2 3) p) simp
qed

text \<open>
  Claim C10. \<open>register_user\<close> for an id that is already in the users table overwrites
  the user's username, first name and last name with the values supplied (None
  included) and leaves the user's daily and lifetime counters, indeed both counter
  tables, unchanged.
\<close>

theorem register_user_existing_keeps_counters:
  assumes "map_of (users db) uid = Some u"
  shows "fst (register_user now db uid uname fname lname) = True
       \<and> map_of (users (snd (register_user now db uid uname fname lname))) uid
           = Some (u\<lparr>username := uname, first_name := fname, last_name := lname\<rparr>)
       \<and> daily_stats (snd (register_user now db uid uname fname lname)) = daily_stats db
       \<and> lifetime_stats (snd (register_user now db uid uname fname lname)) = lifetime_stats db
       \<and> get_user_stats (snd (register_user now db uid uname fname lname)) uid = get_user_stats db uid"
  using assms by (simp add: register_user_def map_of_update_where get_user_stats_def)

theorem register_user_existing_keeps_counters_witness:
  "map_of (users battle_db) 2
     = Some \<lparr>username = Some ''B'', first_name = None, last_name = None, registered_at = 2\<rparr>
   \<and> map_of (users (snd (register_user 9 battle_db 2 None (Some ''Bea'') None))) 2
     = Some \<lparr>username = None, first_name = Some ''Bea'', last_name = None, registered_at = 2\<rparr>
   \<and> get_user_stats (snd (register_user 9 battle_db 2 None (Some ''Bea'') None)) 2 = (8, 8)"
proof -
  have h: "map_of (users battle_db) 2
     = Some \<lparr>username = Some ''B'', first_name = None, last_name = None, registered_at = 2\<rparr>"
    by (simp add: battle_db_def db_defs)
  have s: "get_user_stats battle_db 2 = (8, 8)"
    by (simp add: get_user_stats_def battle_db_def db_defs)
  show ?thesis
    using h s register_user_existing_keeps_counters [OF h, of 9 None "Some ''Bea''" None] by simp
qed

section \<open>Leaderboard builder: the properties\<close>

lemma set_sql_limit: "set (sql_limit n xs) \<subseteq> set xs"
  by (auto simp: sql_limit_def dest: in_set_takeD)

lemma sorted_sql_limit: "sorted (map f xs) \<Longrightarrow> sorted (map f (sql_limit n xs))"
  by (simp add: sql_limit_def take_map [symmetric] sorted_wrt_take)

lemma length_sql_limit: "0 \<le> n \<Longrightarrow> int (length (sql_limit n xs)) \<le> n"
  by (simp add: sql_limit_def)

lemma query_rows:
  assumes "(uid, u, d) \<in> set (daily_leaderboard_query db limit)"
  shows "0 < questions_solved d \<and> coalesce (username u) (first_name u) ''Unknown User'' \<noteq> ''Demo User''"
proof -
  from assms set_sql_limit
  have "0 < questions_solved d \<and> coalesce (username u) (first_name u) [] \<noteq> ''Demo User''"
    unfolding daily_leaderboard_query_def by fastforce
  then show ?thesis
    by (auto simp: coalesce_def split: option.splits)
qed

lemma query_sorted:
  "sorted (map (\<lambda>(uid, u, d). - questions_solved d) (daily_leaderboard_query db limit))"
  unfolding daily_leaderboard_query_def
  by (rule sorted_sql_limit) simp

lemma descending_neg: "sorted (map (\<lambda>x. - f x) xs) \<Longrightarrow> descending (map f xs)"
  by (simp add: descending_def sorted_wrt_map)

lemma display_variant:
  "get_daily_leaderboard db limit
     = map (\<lambda>(uid, name, score). (name, score)) (get_daily_leaderboard_with_ids db limit)"
  by (simp add: get_daily_leaderboard_def get_daily_leaderboard_with_ids_def split_def)

text \<open>
  Claim C3, as the code has it. The leaderboard of either variant (with ids and for
  display) is sorted in descending order of score, holds no entry with a score of 0 or
  less, holds no entry whose display name is exactly "Demo User", and for every limit
  that is not negative its length is at most the limit.
\<close>

theorem daily_leaderboard_sorted_filtered_limited:
  "descending (map (\<lambda>(uid, name, score). score) (get_daily_leaderboard_with_ids db limit))
   \<and> (\<forall>(uid, name, score) \<in> set (get_daily_leaderboard_with_ids db limit).
         0 < score \<and> name \<noteq> ''Demo User'')
   \<and> (0 \<le> limit \<longrightarrow> int (length (get_daily_leaderboard_with_ids db limit)) \<le> limit)
   \<and> descending (map (\<lambda>(name, score). score) (get_daily_leaderboard db limit))
   \<and> (\<forall>(name, score) \<in> set (get_daily_leaderboard db limit).
         0 < score \<and> name \<noteq> ''Demo User'')
   \<and> (0 \<le> limit \<longrightarrow> int (length (get_daily_leaderboard db limit)) \<le> limit)"
proof -
  let ?q = "daily_leaderboard_query db limit"
  have d: "descending (map (\<lambda>(uid, u, d). questions_solved d) ?q)"
    using query_sorted [of db limit] descending_neg [of "\<lambda>(uid, u, d). questions_solved d" ?q]
    by (simp add: split_def)
  have l: "0 \<le> limit \<longrightarrow> int (length ?q) \<le> limit"
    by (simp add: daily_leaderboard_query_def length_sql_limit)
  have r: "\<forall>(uid, u, d) \<in> set ?q. 0 < questions_solved d
             \<and> coalesce (username u) (first_name u) ''Unknown User'' \<noteq> ''Demo User''"
    using query_rows by blast
  show ?thesis
    using d l r
    by (auto simp: get_daily_leaderboard_def get_daily_leaderboard_with_ids_def split_def comp_def)
qed

theorem daily_leaderboard_sorted_filtered_limited_witness:
  "(0::int) \<le> 2
   \<and> get_daily_leaderboard_with_ids battle_db 2 = [(1, ''A'', 10), (2, ''B'', 8)]
   \<and> int (length (get_daily_leaderboard_with_ids battle_db 2)) \<le> 2
   \<and> descending (map (\<lambda>(name, score). score) (get_daily_leaderboard battle_db 2))"
proof -
  have e: "get_daily_leaderboard_with_ids battle_db 2 = [(1, ''A'', 10), (2, ''B'', 8)]"
    by (simp add: battle_db_def get_daily_leaderboard_with_ids_def daily_leaderboard_query_def db_defs)
  show ?thesis
    using e daily_leaderboard_sorted_filtered_limited [of battle_db 2] by simp
qed

text \<open>
  The claim as stated fails in two places. The query compares the name with
  \<^verbatim>\<open>!= 'Demo User'\<close>, which distinguishes upper and lower case: a user with the handle
  "demo user" is on the leaderboard. And a negative \<^verbatim>\<open>LIMIT\<close> does not bound the
  result: with limit -1 all three rows are returned.
\<close>

theorem daily_leaderboard_claim_counterexample:
  "get_daily_leaderboard lowercase_demo_db 10 = [(''demo user'', 5)]
   \<and> get_daily_leaderboard_with_ids lowercase_demo_db 10 = [(1, ''demo user'', 5)]
   \<and> equal_ignoring_case ''demo user'' ''Demo User''
   \<and> get_daily_leaderboard_with_ids battle_db (- 1) = [(1, ''A'', 10), (2, ''B'', 8), (3, ''C'', 5)]
   \<and> \<not> int (length (get_daily_leaderboard_with_ids battle_db (- 1))) \<le> - 1"
  by (simp add: get_daily_leaderboard_def get_daily_leaderboard_with_ids_def
        daily_leaderboard_query_def lowercase_demo_db_def battle_db_def db_defs
        equal_ignoring_case_def ascii_lower_def)

section \<open>Privilege ledger: the properties\<close>

lemma ex_latest:
  fixes f :: "'a \<Rightarrow> nat"
  shows "xs \<noteq> [] \<Longrightarrow> \<exists>m \<in> set xs. \<forall>x \<in> set xs. f x \<le> f m"
proof (induction xs)
  case Nil
  then show ?case by simp
next
  case (Cons a xs)
  show ?case
  proof (cases "xs = []")
    case True
    then show ?thesis by simp
  next
    case False
    with Cons.IH obtain m where m: "m \<in> set xs" "\<forall>x \<in> set xs. f x \<le> f m" by blast
    show ?thesis
    proof (cases "f a \<le> f m")
      case True
      with m show ?thesis by auto
    next
      case False
      with m have "\<forall>x \<in> set (a # xs). f x \<le> f a" by fastforce
      then show ?thesis by auto
    qed
  qed
qed

text \<open>
  Claim C8, as the code has it. For every user, \<open>get_unused_message_right\<close> returns
  a value; a right id it returns is the id of an unconsumed right of that user that no
  unconsumed right of that user was created after; and it returns none exactly when the
  user has no unconsumed right. Which of several unconsumed rights with the same latest
  creation time is returned, the query does not determine.
\<close>

theorem get_unused_message_right_latest_unused:
  "get_unused_message_right db uid \<noteq> []
   \<and> (\<forall>rid. Some rid \<in> set (get_unused_message_right db uid) \<longrightarrow>
         (\<exists>r \<in> set (rights_rows db). right_id r = rid \<and> right_user_id r = uid \<and> \<not> used r \<and>
            (\<forall>r' \<in> set (rights_rows db).
               right_user_id r' = uid \<and> \<not> used r' \<longrightarrow> created_at r' \<le> created_at r)))
   \<and> (None \<in> set (get_unused_message_right db uid) \<longleftrightarrow>
         (\<forall>r \<in> set (rights_rows db). right_user_id r = uid \<longrightarrow> used r))"
proof (intro conjI allI impI)
  let ?sel = "unused_rights db uid"
  show "get_unused_message_right db uid \<noteq> []"
  proof (cases "?sel = []")
    case True
    then show ?thesis by (simp add: get_unused_message_right_def)
  next
    case False
    from ex_latest [OF this, of created_at]
    obtain m where "m \<in> set ?sel" "\<forall>r' \<in> set ?sel. created_at r' \<le> created_at m"
      by blast
    then have "filter (\<lambda>r. \<forall>r' \<in> set ?sel. created_at r' \<le> created_at r) ?sel \<noteq> []"
      by (auto simp: filter_empty_conv)
    with False show ?thesis by (simp add: get_unused_message_right_def Let_def)
  qed
  show "None \<in> set (get_unused_message_right db uid) \<longleftrightarrow>
         (\<forall>r \<in> set (rights_rows db). right_user_id r = uid \<longrightarrow> used r)"
    by (auto simp: get_unused_message_right_def unused_rights_def Let_def filter_empty_conv)
  fix rid assume "Some rid \<in> set (get_unused_message_right db uid)"
  then show "\<exists>r \<in> set (rights_rows db). right_id r = rid \<and> right_user_id r = uid \<and> \<not> used r \<and>
            (\<forall>r' \<in> set (rights_rows db).
               right_user_id r' = uid \<and> \<not> used r' \<longrightarrow> created_at r' \<le> created_at r)"
    by (auto simp: get_unused_message_right_def unused_rights_def Let_def split: if_splits)
qed

theorem get_unused_message_right_latest_unused_witness:
  "Some 2 \<in> set (get_unused_message_right later_rights_db 7)
   \<and> None \<notin> set (get_unused_message_right later_rights_db 7)
   \<and> (\<exists>r \<in> set (rights_rows later_rights_db).
         right_id r = 2 \<and> right_user_id r = 7 \<and> \<not> used r)"
proof -
  have e: "get_unused_message_right later_rights_db 7 = [Some 2]"
    by (simp add: get_unused_message_right_def unused_rights_def later_rights_db_def db_defs)
  then have h: "Some 2 \<in> set (get_unused_message_right later_rights_db 7)"
    by simp
  with get_unused_message_right_latest_unused [of later_rights_db 7]
  have "\<exists>r \<in> set (rights_rows later_rights_db).
         right_id r = 2 \<and> right_user_id r = 7 \<and> \<not> used r"
    by blast
  with h e show ?thesis by simp
qed

text \<open>
  The claim as stated fails: the query has no second sort key. When two rights are
  granted to user 7 within the same second, the call may return the right with id 1 as
  well as the one with id 2, the highest insertion sequence.
\<close>

theorem get_unused_message_right_tie_open:
  "get_unused_message_right tied_rights_db 7 = [Some 1, Some 2]
   \<and> map (\<lambda>r. (right_id r, right_user_id r, used r, created_at r)) (rights_rows tied_rights_db)
       = [(1, 7, False, 100), (2, 7, False, 100)]"
  by (simp add: get_unused_message_right_def unused_rights_def tied_rights_db_def db_defs)

lemma next_rowid_greater: "x \<in> set ids \<Longrightarrow> x < next_rowid ids"
  by (induction ids) (auto simp: next_rowid_def)

lemma rights_rows_other_calls:
  "rights_rows (snd (register_user now db uid uname fname lname)) = rights_rows db"
  "rights_rows (snd (update_solved_questions now db uid n)) = rights_rows db"
  "rights_rows (snd (reset_daily_stats now db)) = rights_rows db"
  by (simp_all add: rights_rows_def register_user_def update_solved_questions_def
        reset_daily_stats_def Let_def)

lemma consumed_store:
  assumes "consumed rid db"
  shows "consumed rid (snd (store_special_message_right now db uid outranked opos npos))"
proof -
  from assms obtain r where r: "r \<in> set (rights_rows db)" "right_id r = rid"
    by (auto simp: consumed_def)
  then have "rid < next_rowid (map right_id (rights_rows db))"
    by (intro next_rowid_greater) auto
  with assms show ?thesis
    by (auto simp: consumed_def store_special_message_right_def rights_rows_def)
qed

lemma rights_rows_use:
  "rights_rows (snd (use_message_right db rid))
     = map (\<lambda>r. if right_id r = rid then r\<lparr>used := True\<rparr> else r) (rights_rows db)"
  by (simp add: rights_rows_def use_message_right_def split: option.splits)

lemma table_exists:
  "r \<in> set (rights_rows db) \<Longrightarrow> special_message_rights db = Some (rights_rows db)"
  by (cases "special_message_rights db") (simp_all add: rights_rows_def)

lemma consumed_use:
  assumes "consumed rid db"
  shows "consumed rid (snd (use_message_right db rid'))"
proof -
  let ?f = "\<lambda>r. if right_id r = rid' then r\<lparr>used := True\<rparr> else r"
  from assms obtain r where r: "r \<in> set (rights_rows db)" "right_id r = rid"
    and u: "\<forall>r' \<in> set (rights_rows db). right_id r' = rid \<longrightarrow> used r'"
    by (auto simp: consumed_def)
  have "?f r \<in> set (map ?f (rights_rows db))" using r by simp
  moreover have "right_id (?f r) = rid" using r by simp
  moreover have "\<forall>r' \<in> set (map ?f (rights_rows db)). right_id r' = rid \<longrightarrow> used r'"
    using u by auto
  ultimately show ?thesis
    unfolding consumed_def rights_rows_use by blast
qed

lemma consumed_perform: "consumed rid db \<Longrightarrow> consumed rid (perform now c db)"
  by (cases c) (simp_all add: consumed_store consumed_use, simp_all add: consumed_def rights_rows_other_calls)

lemma consumed_perform_all: "consumed rid db \<Longrightarrow> consumed rid (perform_all calls db)"
  by (induction calls arbitrary: db) (auto simp: consumed_perform)

lemma consumed_not_returned:
  "consumed rid db \<Longrightarrow> Some rid \<notin> set (get_unused_message_right db uid)"
  by (auto simp: consumed_def get_unused_message_right_def unused_rights_def Let_def split: if_splits)

lemma use_message_right_consumes:
  assumes "r \<in> set (rights_rows db)" and "right_id r = rid"
  shows "consumed rid (snd (use_message_right db rid))"
proof -
  let ?f = "\<lambda>r. if right_id r = rid then r\<lparr>used := True\<rparr> else r"
  have k: "used (?f x)" if "right_id (?f x) = rid" for x
    using that by (cases "right_id x = rid") simp_all
  have "?f r \<in> set (map ?f (rights_rows db))" using assms by simp
  moreover have "right_id (?f r) = rid" using assms by simp
  moreover have "\<forall>r' \<in> set (map ?f (rights_rows db)). right_id r' = rid \<longrightarrow> used r'"
  proof (intro ballI impI)
    fix r' assume a: "r' \<in> set (map ?f (rights_rows db))" and b: "right_id r' = rid"
    from a obtain x where "r' = ?f x" unfolding set_map by (rule imageE)
    with b k [of x] show "used r'" by (simp only:)
  qed
  ultimately show ?thesis
    unfolding consumed_def rights_rows_use by blast
qed

lemma use_message_right_twice:
  "use_message_right (snd (use_message_right db rid)) rid = use_message_right db rid"
proof (cases "special_message_rights db")
  case None
  then show ?thesis by (simp add: use_message_right_def)
next
  case (Some rs)
  have "map (\<lambda>r. if right_id r = rid then r\<lparr>used := True\<rparr> else r)
          (map (\<lambda>r. if right_id r = rid then r\<lparr>used := True\<rparr> else r) rs)
        = map (\<lambda>r. if right_id r = rid then r\<lparr>used := True\<rparr> else r) rs"
    by (induction rs) auto
  with Some show ?thesis by (simp add: use_message_right_def)
qed

text \<open>
  Claim C9. Once an existing right has been consumed by \<open>use_message_right\<close>, no
  call of \<open>get_unused_message_right\<close> returns its id again, for any user and after
  any sequence of later calls of the writing methods; and a second
  \<open>use_message_right\<close> on the same id succeeds and leaves the database exactly as it
  was, so the right stays consumed and no other record changes.
\<close>

theorem consumed_right_never_returned:
  assumes "r \<in> set (rights_rows db)" and "right_id r = rid"
  shows "fst (use_message_right db rid) = True
       \<and> (\<forall>calls uid. Some rid \<notin> set (get_unused_message_right
              (perform_all calls (snd (use_message_right db rid))) uid))
       \<and> use_message_right (snd (use_message_right db rid)) rid
           = (True, snd (use_message_right db rid))"
proof (intro conjI allI)
  from assms show t: "fst (use_message_right db rid) = True"
    by (simp add: use_message_right_def table_exists)
  show "Some rid \<notin> set (get_unused_message_right
              (perform_all calls (snd (use_message_right db rid))) uid)" for calls uid
    using assms
    by (intro consumed_not_returned consumed_perform_all use_message_right_consumes)
  show "use_message_right (snd (use_message_right db rid)) rid
           = (True, snd (use_message_right db rid))"
    using t by (simp add: use_message_right_twice prod_eq_iff)
qed

theorem consumed_right_never_returned_witness:
  "\<lparr>right_id = 2, right_user_id = 7, outranked_user_id = 9, old_position = 3,
     new_position = 2, used = False, created_at = 100\<rparr> \<in> set (rights_rows tied_rights_db)
   \<and> fst (use_message_right tied_rights_db 2) = True
   \<and> Some 2 \<notin> set (get_unused_message_right
        (perform_all [(101, StoreRight 7 8 2 1), (102, UseRight 1)]
           (snd (use_message_right tied_rights_db 2))) 7)
   \<and> get_unused_message_right
        (perform_all [(101, StoreRight 7 8 2 1), (102, UseRight 1)]
           (snd (use_message_right tied_rights_db 2))) 7 = [Some 3]"
proof -
  let ?r = "\<lparr>right_id = 2, right_user_id = 7, outranked_user_id = 9, old_position = 3,
     new_position = 2, used = False, created_at = 100\<rparr>"
  have h: "?r \<in> set (rights_rows tied_rights_db)"
    by (simp add: tied_rights_db_def db_defs)
  have i: "right_id ?r = 2" by simp
  have e: "get_unused_message_right
        (perform_all [(101, StoreRight 7 8 2 1), (102, UseRight 1)]
           (snd (use_message_right tied_rights_db 2))) 7 = [Some 3]"
    by (simp add: get_unused_message_right_def unused_rights_def tied_rights_db_def db_defs)
  from consumed_right_never_returned [OF h i] have "fst (use_message_right tied_rights_db 2) = True"
    and "Some 2 \<notin> set (get_unused_message_right
        (perform_all [(101, StoreRight 7 8 2 1), (102, UseRight 1)]
           (snd (use_message_right tied_rights_db 2))) 7)"
    by blast+
  with h e show ?thesis by blast
qed

end
